theory Spec2Isabelle
  imports Main "HOL-Library.Word"
begin

section \<open>The execution store: data\<close>

text \<open>
  The store of package \<open>database\<close> keeps rows of table \<open>executions\<close> and moves them to
  and from values of the Go struct \<open>types.Execution\<close>. The struct's declaration is not
  among the sources; its fields are the 35 columns that the statements of the store name.
  Five of them are read or written by the Go code itself and are 64-bit integers
  (\<open>ID\<close>, \<open>PipelineID\<close>, \<open>Number\<close>, \<open>Updated\<close>, \<open>Version\<close>); the other
  thirty are only carried between struct and row, so their value type is the parameter
  \<open>'p\<close>, with the zero value that \<open>new(types.Execution)\<close> gives a field.
\<close>

type_synonym int64 = "64 word"

datatype field =
    execution_repo_id | execution_trigger | execution_parent | execution_status
  | execution_error | execution_event | execution_action | execution_link
  | execution_timestamp | execution_title | execution_message | execution_before
  | execution_after | execution_ref | execution_source_repo | execution_source
  | execution_target | execution_author | execution_author_name | execution_author_email
  | execution_author_avatar | execution_sender | execution_params | execution_cron
  | execution_deploy | execution_deploy_id | execution_debug | execution_started
  | execution_finished | execution_created

datatype column =
    execution_id | execution_pipeline_id | execution_number
  | execution_updated | execution_version | F field

record 'p Execution =
  ID :: int64
  PipelineID :: int64
  Number :: int64
  Updated :: int64
  Version :: int64
  Fields :: "field \<Rightarrow> 'p"

text \<open>The zero struct, as \<open>new(types.Execution)\<close> allocates it.\<close>

definition new_Execution :: "('p::zero) Execution" where
  "new_Execution = \<lparr>ID = 0, PipelineID = 0, Number = 0, Updated = 0, Version = 0,
     Fields = (\<lambda>_. 0)\<rparr>"

text \<open>
  \<open>copy_column c src dst\<close> is \<open>dst\<close> with column \<open>c\<close> taken from \<open>src\<close>: what a
  named parameter \<open>:c\<close> bound from a struct does to a row, and what scanning a selected
  column does to a struct.
\<close>

fun copy_column :: "column \<Rightarrow> 'p Execution \<Rightarrow> 'p Execution \<Rightarrow> 'p Execution" where
  "copy_column execution_id src dst = dst\<lparr>ID := ID src\<rparr>"
| "copy_column execution_pipeline_id src dst = dst\<lparr>PipelineID := PipelineID src\<rparr>"
| "copy_column execution_number src dst = dst\<lparr>Number := Number src\<rparr>"
| "copy_column execution_updated src dst = dst\<lparr>Updated := Updated src\<rparr>"
| "copy_column execution_version src dst = dst\<lparr>Version := Version src\<rparr>"
| "copy_column (F f) src dst = dst\<lparr>Fields := (Fields dst)(f := Fields src f)\<rparr>"

definition copy_columns :: "column list \<Rightarrow> 'p Execution \<Rightarrow> 'p Execution \<Rightarrow> 'p Execution" where
  "copy_columns cols src dst = foldr (\<lambda>c. copy_column c src) cols dst"

text \<open>Two structs or rows agree on a column.\<close>

fun same_column :: "column \<Rightarrow> 'p Execution \<Rightarrow> 'p Execution \<Rightarrow> bool" where
  "same_column execution_id a b = (ID a = ID b)"
| "same_column execution_pipeline_id a b = (PipelineID a = PipelineID b)"
| "same_column execution_number a b = (Number a = Number b)"
| "same_column execution_updated a b = (Updated a = Updated b)"
| "same_column execution_version a b = (Version a = Version b)"
| "same_column (F f) a b = (Fields a f = Fields b f)"

section \<open>Errors\<close>

text \<open>
  \<open>sql_error\<close> is what the database driver reports; \<open>error\<close> is a Go \<open>error\<close> value
  as the store and its callers see it. \<open>ErrVersionConflict\<close> is the sentinel of
  package \<open>store\<close>, \<open>ErrCustom\<close> any error of a caller's mutation function, and
  \<open>NilDereference\<close> stands for the run-time panic of reading through a pointer that
  holds no struct.
\<close>

datatype sql_error = ErrNoRows | SyntaxError | UniqueViolation

datatype error =
    ErrVersionConflict | ErrResourceNotFound | ErrDuplicate
  | ErrSQL string | ErrCustom string | NilDereference

text \<open>
  Modelled from the spec: \<open>database.ProcessSQLErrorf\<close> (package \<open>store/database\<close>) is
  not among the sources. The spec's error taxonomy has \<open>Find\<close> answer a missing identity
  with \<open>NotFoundError\<close> and \<open>Create\<close> answer an existing identity with a conflict error;
  every other driver error is surfaced under the message of the call.
\<close>

definition ProcessSQLErrorf :: "sql_error \<Rightarrow> string \<Rightarrow> error" where
  "ProcessSQLErrorf err msg =
     (case err of
        ErrNoRows \<Rightarrow> ErrResourceNotFound
      | UniqueViolation \<Rightarrow> ErrDuplicate
      | SyntaxError \<Rightarrow> ErrSQL msg)"

section \<open>The statements, as the store writes them\<close>

text \<open>
  A column list of a statement is kept as the tokens of its text: items and the commas
  between them. SQL's grammar for such a list is one item followed by any number of
  \<open>, item\<close>; \<open>comma_list\<close> reads it and answers \<open>None\<close> where the database
  reports a syntax error.
\<close>

datatype 'a token = Comma | Item 'a

fun comma_items :: "'a token list \<Rightarrow> 'a list option" where
  "comma_items [] = Some []"
| "comma_items (Comma # Item x # ts) = map_option ((#) x) (comma_items ts)"
| "comma_items _ = None"

fun comma_list :: "'a token list \<Rightarrow> 'a list option" where
  "comma_list (Item x # ts) = map_option ((#) x) (comma_items ts)"
| "comma_list _ = None"

text \<open>The constant \<open>executionColumns\<close>: the select list of \<open>Find\<close> and \<open>List\<close>.\<close>

definition executionColumns :: "column token list" where
  "executionColumns =
    [Item execution_id
    ,Comma, Item execution_pipeline_id
    ,Comma, Item (F execution_repo_id)
    ,Comma, Item (F execution_trigger)
    ,Comma, Item execution_number
    ,Comma, Item (F execution_parent)
    ,Comma, Item (F execution_status)
    ,Comma, Item (F execution_error)
    ,Comma, Item (F execution_event)
    ,Comma, Item (F execution_action)
    ,Comma, Item (F execution_link)
    ,Comma, Item (F execution_timestamp)
    ,Comma, Item (F execution_title)
    ,Comma, Item (F execution_message)
    ,Comma, Item (F execution_before)
    ,Comma, Item (F execution_after)
    ,Comma, Item (F execution_ref)
    ,Comma, Item (F execution_source_repo)
    ,Comma, Item (F execution_source)
    ,Comma, Item (F execution_target)
    ,Comma, Item (F execution_author)
    ,Comma, Item (F execution_author_name)
    ,Comma, Item (F execution_author_email)
    ,Comma, Item (F execution_author_avatar)
    ,Comma, Item (F execution_sender)
    ,Comma, Item (F execution_params)
    ,Comma, Item (F execution_cron)
    ,Comma, Item (F execution_deploy)
    ,Comma, Item (F execution_deploy_id)
    ,Comma, Item (F execution_debug)
    ,Comma, Item (F execution_started)
    ,Comma, Item (F execution_finished)
    ,Comma, Item (F execution_created)
    ,Comma, Item execution_updated
    ,Comma, Item execution_version]"

text \<open>
  \<open>executionInsertStmt\<close>: the columns of \<open>INSERT INTO executions (...)\<close>; the
  \<open>VALUES\<close> list names the parameter \<open>:c\<close> for each column \<open>c\<close>, in the same order.
\<close>

definition executionInsertStmt :: "column token list" where
  "executionInsertStmt =
    [Item execution_pipeline_id
    ,Comma, Item (F execution_repo_id)
    ,Comma, Item (F execution_trigger)
    ,Comma, Item execution_number
    ,Comma, Item (F execution_parent)
    ,Comma, Item (F execution_status)
    ,Comma, Item (F execution_error)
    ,Comma, Item (F execution_event)
    ,Comma, Item (F execution_action)
    ,Comma, Item (F execution_link)
    ,Comma, Item (F execution_timestamp)
    ,Comma, Item (F execution_title)
    ,Comma, Item (F execution_message)
    ,Comma, Item (F execution_before)
    ,Comma, Item (F execution_after)
    ,Comma, Item (F execution_ref)
    ,Comma, Item (F execution_source_repo)
    ,Comma, Item (F execution_source)
    ,Comma, Item (F execution_target)
    ,Comma, Item (F execution_author)
    ,Comma, Item (F execution_author_name)
    ,Comma, Item (F execution_author_email)
    ,Comma, Item (F execution_author_avatar)
    ,Comma, Item (F execution_sender)
    ,Comma, Item (F execution_params)
    ,Comma, Item (F execution_cron)
    ,Comma, Item (F execution_deploy)
    ,Comma, Item (F execution_deploy_id)
    ,Comma, Item (F execution_debug)
    ,Comma, Item (F execution_started)
    ,Comma, Item (F execution_finished)
    ,Comma, Item (F execution_created)
    ,Comma, Item execution_updated
    ,Comma, Item execution_version]"

text \<open>
  \<open>executionUpdateStmt\<close>: the \<open>SET\<close> list of \<open>UPDATE executions\<close>, where
  \<open>Item c\<close> is the assignment \<open>c = :c\<close>. The text of the statement opens the list
  with a comma (\<open>SET ,execution_status = :execution_status\<close>), and so do the tokens.
\<close>

definition executionUpdateStmt :: "column token list" where
  "executionUpdateStmt =
    [Comma, Item (F execution_status)
    ,Comma, Item (F execution_error)
    ,Comma, Item (F execution_event)
    ,Comma, Item (F execution_started)
    ,Comma, Item (F execution_finished)
    ,Comma, Item execution_updated
    ,Comma, Item execution_version]"

text \<open>
  Its predicate, \<open>WHERE execution_id = :execution_id AND execution_version =
  :execution_version - 1\<close>. The database does the subtraction, on the integers the
  64-bit values stand for.
\<close>

definition executionUpdateStmt_where :: "'p Execution \<Rightarrow> 'p Execution \<Rightarrow> bool" where
  "executionUpdateStmt_where arg row \<longleftrightarrow>
     ID row = ID arg \<and> sint (Version row) = sint (Version arg) - 1"

text \<open>
  The predicate of \<open>Find\<close> and \<open>Delete\<close>,
  \<open>WHERE execution_pipeline_id = $1 AND execution_number = $2\<close>, and that of
  \<open>List\<close> and \<open>Count\<close>, \<open>WHERE execution_pipeline_id = ?\<close> (\<open>List\<close> passes the
  id printed by \<open>fmt.Sprint\<close>, which the database reads back as the same integer).
\<close>

definition identity_where :: "int64 \<Rightarrow> int64 \<Rightarrow> 'p Execution \<Rightarrow> bool" where
  "identity_where pipelineID executionNum row \<longleftrightarrow>
     PipelineID row = pipelineID \<and> Number row = executionNum"

definition pipeline_where :: "int64 \<Rightarrow> 'p Execution \<Rightarrow> bool" where
  "pipeline_where pipelineID row \<longleftrightarrow> PipelineID row = pipelineID"

section \<open>The state: database, clock and heap\<close>

text \<open>
  \<open>executions\<close> are the rows of the table in the store's order and \<open>next_id\<close> the
  sequence behind \<open>execution_id\<close>. \<open>clock\<close> lists the readings that successive
  calls of \<open>time.Now().UnixMilli()\<close> return, \<open>ticks\<close> counts the calls made. \<open>heap\<close>
  holds the \<open>types.Execution\<close> structs of the Go program; a pointer is an index into it
  and allocation appends a cell.
\<close>

type_synonym ptr = nat

record 'p world =
  executions :: "'p Execution list"
  next_id :: int64
  clock :: "nat \<Rightarrow> int64"
  ticks :: nat
  heap :: "'p Execution list"

definition deref :: "'p world \<Rightarrow> ptr \<Rightarrow> 'p Execution option" where
  "deref w p = (if p < length (heap w) then Some (heap w ! p) else None)"

definition alloc :: "'p Execution \<Rightarrow> 'p world \<Rightarrow> ptr \<times> 'p world" where
  "alloc v w = (length (heap w), w\<lparr>heap := heap w @ [v]\<rparr>)"

definition store :: "ptr \<Rightarrow> 'p Execution \<Rightarrow> 'p world \<Rightarrow> 'p world" where
  "store p v w = w\<lparr>heap := (heap w)[p := v]\<rparr>"

definition time_Now_UnixMilli :: "'p world \<Rightarrow> int64 \<times> 'p world" where
  "time_Now_UnixMilli w = (clock w (ticks w), w\<lparr>ticks := Suc (ticks w)\<rparr>)"

section \<open>The database executing a statement\<close>

text \<open>
  \<open>UPDATE\<close>: a statement that does not parse changes nothing and is an error;
  otherwise every row the predicate holds for receives the assigned columns from the
  bound struct, and the number of such rows is reported.
\<close>

definition exec_update ::
  "column token list \<Rightarrow> ('p Execution \<Rightarrow> 'p Execution \<Rightarrow> bool) \<Rightarrow> 'p Execution \<Rightarrow>
   'p Execution list \<Rightarrow> sql_error + nat \<times> 'p Execution list" where
  "exec_update set_list wh arg rows =
     (case comma_list set_list of
        None \<Rightarrow> Inl SyntaxError
      | Some cols \<Rightarrow>
          Inr (length (filter (wh arg) rows),
               map (\<lambda>row. if wh arg row then copy_columns cols arg row else row) rows))"

text \<open>
  \<open>SELECT\<close>: the rows the predicate holds for, in the store's order, each scanned into
  a zero struct column by column.
\<close>

definition exec_select ::
  "column token list \<Rightarrow> ('p Execution \<Rightarrow> bool) \<Rightarrow> 'p Execution list \<Rightarrow>
   sql_error + ('p::zero) Execution list" where
  "exec_select select_list wh rows =
     (case comma_list select_list of
        None \<Rightarrow> Inl SyntaxError
      | Some cols \<Rightarrow> Inr (map (\<lambda>row. copy_columns cols row new_Execution) (filter wh rows)))"

text \<open>\<open>DELETE\<close>: the rows the predicate holds for are removed; no row at all is no error.\<close>

definition exec_delete :: "('p Execution \<Rightarrow> bool) \<Rightarrow> 'p Execution list \<Rightarrow> 'p Execution list" where
  "exec_delete wh rows = filter (\<lambda>row. \<not> wh row) rows"

text \<open>
  Modelled from the spec: the schema of table \<open>executions\<close> (its migration) is not among
  the sources. The spec has \<open>Create\<close> assign the identity and fail with a conflict error
  "if identity already exists"; the identity that \<open>Find\<close> and \<open>Delete\<close> use is the pair
  of pipeline id and execution number, and the generated \<open>execution_id\<close> is the next
  value of a sequence. \<open>INSERT ... RETURNING execution_id\<close> appends the row built from
  the bound struct and answers the generated id.
\<close>

definition exec_insert ::
  "column token list \<Rightarrow> 'p Execution \<Rightarrow> ('p::zero) world \<Rightarrow> sql_error + int64 \<times> 'p world" where
  "exec_insert insert_list arg w =
     (case comma_list insert_list of
        None \<Rightarrow> Inl SyntaxError
      | Some cols \<Rightarrow>
          if list_ex (identity_where (PipelineID arg) (Number arg)) (executions w)
          then Inl UniqueViolation
          else Inr (next_id w,
                    w\<lparr>executions :=
                         executions w @ [copy_columns cols arg (new_Execution\<lparr>ID := next_id w\<rparr>)],
                       next_id := next_id w + 1\<rparr>))"

section \<open>The store's operations\<close>

text \<open>
  Each operation takes the state and returns the state after it with what the Go function
  returns: \<open>None\<close> is the \<open>nil\<close> error. Binding the parameters and reading the number of
  affected rows do not fail for these statements and have no branch here.
\<close>

definition Update :: "('p::zero) world \<Rightarrow> ptr \<Rightarrow> 'p world \<times> error option" where
  "Update w0 e =
     (let (updatedAt, w) = time_Now_UnixMilli w0 in
      (case deref w e of
         None \<Rightarrow> (w, Some NilDereference)
       | Some ev \<Rightarrow>
           (let execution = ev\<lparr>Version := Version ev + 1, Updated := updatedAt\<rparr> in
            (case exec_update executionUpdateStmt executionUpdateStmt_where execution
                    (executions w) of
               Inl err \<Rightarrow> (w, Some (ProcessSQLErrorf err ''Failed to update execution''))
             | Inr (count, rows) \<Rightarrow>
                 (if count = 0 then (w\<lparr>executions := rows\<rparr>, Some ErrVersionConflict)
                  else (store e (ev\<lparr>Version := Version execution,
                                     Updated := Updated execution\<rparr>)
                          (w\<lparr>executions := rows\<rparr>), None))))))"

text \<open>
  \<open>Find\<close> allocates its result struct before the query and returns it only when a row
  was scanned into it; \<open>GetContext\<close> takes the first row and reports \<open>ErrNoRows\<close> when
  there is none.
\<close>

definition Find :: "('p::zero) world \<Rightarrow> int64 \<Rightarrow> int64 \<Rightarrow> 'p world \<times> (error + ptr)" where
  "Find w0 pipelineID executionNum =
     (let (dst, w) = alloc new_Execution w0 in
      (case exec_select executionColumns (identity_where pipelineID executionNum)
              (executions w) of
         Inl err \<Rightarrow> (w, Inl (ProcessSQLErrorf err ''Failed to find execution''))
       | Inr [] \<Rightarrow> (w, Inl (ProcessSQLErrorf ErrNoRows ''Failed to find execution''))
       | Inr (row # _) \<Rightarrow> (store dst row w, Inr dst)))"

text \<open>\<open>Create\<close> scans the returned id into the caller's struct.\<close>

definition Create :: "('p::zero) world \<Rightarrow> ptr \<Rightarrow> 'p world \<times> error option" where
  "Create w execution =
     (case deref w execution of
        None \<Rightarrow> (w, Some NilDereference)
      | Some ev \<Rightarrow>
          (case exec_insert executionInsertStmt ev w of
             Inl err \<Rightarrow> (w, Some (ProcessSQLErrorf err ''Execution query failed''))
           | Inr (new_id, w') \<Rightarrow> (store execution (ev\<lparr>ID := new_id\<rparr>) w', None)))"

definition Delete :: "'p world \<Rightarrow> int64 \<Rightarrow> int64 \<Rightarrow> 'p world \<times> error option" where
  "Delete w pipelineID executionNum =
     (w\<lparr>executions := exec_delete (identity_where pipelineID executionNum) (executions w)\<rparr>,
      None)"

text \<open>
  Modelled from the spec: \<open>types.Pagination\<close>, \<open>database.Limit\<close> and
  \<open>database.Offset\<close> are not among the sources. The spec gives the descriptor as
  \<open>{page: integer \<ge> 1, size: integer \<ge> 1}\<close>, "mapped to OFFSET (page-1)*size LIMIT size".
\<close>

record Pagination =
  Page :: int
  Size :: int

definition Limit :: "int \<Rightarrow> nat" where
  "Limit sz = nat sz"

definition Offset :: "int \<Rightarrow> int \<Rightarrow> nat" where
  "Offset page sz = nat ((page - 1) * sz)"

definition limit_offset :: "nat \<Rightarrow> nat \<Rightarrow> 'a list \<Rightarrow> 'a list" where
  "limit_offset lim off rows = take lim (drop off rows)"

text \<open>\<open>SelectContext\<close> appends a pointer to a new struct for every row.\<close>

definition alloc_all :: "'p Execution list \<Rightarrow> 'p world \<Rightarrow> ptr list \<times> 'p world" where
  "alloc_all vs w =
     ([length (heap w) ..< length (heap w) + length vs], w\<lparr>heap := heap w @ vs\<rparr>)"

definition List :: "('p::zero) world \<Rightarrow> int64 \<Rightarrow> Pagination \<Rightarrow> 'p world \<times> (error + ptr list)" where
  "List w pipelineID pagination =
     (case exec_select executionColumns (pipeline_where pipelineID) (executions w) of
        Inl err \<Rightarrow> (w, Inl (ProcessSQLErrorf err ''Failed executing custom list query''))
      | Inr rows \<Rightarrow>
          (let (dst, w') =
                 alloc_all (limit_offset (Limit (Size pagination))
                              (Offset (Page pagination) (Size pagination)) rows) w
           in (w', Inr dst)))"

definition Count :: "'p world \<Rightarrow> int64 \<Rightarrow> 'p world \<times> (error + int64)" where
  "Count w pipelineID =
     (w, Inr (of_nat (length (filter (pipeline_where pipelineID) (executions w)))))"

text \<open>
  \<open>UpdateOptLock\<close>. A mutation function receives the pointer to the private copy
  \<open>dup\<close>; it is a function from the copy's contents to the contents it leaves there and
  the error it returns. The loop is written over the two store calls it makes, so that
  its control flow can be stated for every outcome of those calls; the method itself
  calls \<open>Update\<close> and \<open>Find\<close>. A loop that never leaves is the value \<open>None\<close>.
\<close>

type_synonym 'p mutation = "'p Execution \<Rightarrow> 'p Execution \<times> error option"

partial_function (option) UpdateOptLock_on ::
  "('p world \<Rightarrow> ptr \<Rightarrow> 'p world \<times> error option) \<Rightarrow>
   ('p world \<Rightarrow> int64 \<Rightarrow> int64 \<Rightarrow> 'p world \<times> (error + ptr)) \<Rightarrow>
   'p world \<Rightarrow> ptr \<Rightarrow> 'p mutation \<Rightarrow> ('p world \<times> (error + ptr)) option" where
  "UpdateOptLock_on upd fnd w0 execution mutateFn =
     (case deref w0 execution of
        None \<Rightarrow> Some (w0, Inl NilDereference)
      | Some ev \<Rightarrow>
          (let (dup, w1) = alloc ev w0;
               (mutated, merr) = mutateFn ev;
               w2 = store dup mutated w1
           in (case merr of
                 Some err \<Rightarrow> Some (w2, Inl err)
               | None \<Rightarrow>
                   (case upd w2 dup of
                      (w3, None) \<Rightarrow> Some (w3, Inr dup)
                    | (w3, Some err) \<Rightarrow>
                        (if err \<noteq> ErrVersionConflict then Some (w3, Inl err)
                         else (case deref w3 execution of
                                 None \<Rightarrow> Some (w3, Inl NilDereference)
                               | Some cur \<Rightarrow>
                                   (case fnd w3 (PipelineID cur) (Number cur) of
                                      (w4, Inl err) \<Rightarrow> Some (w4, Inl err)
                                    | (w4, Inr found) \<Rightarrow>
                                        UpdateOptLock_on upd fnd w4 found mutateFn)))))))"

definition UpdateOptLock ::
  "('p::zero) world \<Rightarrow> ptr \<Rightarrow> 'p mutation \<Rightarrow> ('p world \<times> (error + ptr)) option" where
  "UpdateOptLock w execution mutateFn = UpdateOptLock_on Update Find w execution mutateFn"

section \<open>The retry loop in the spec's words\<close>

text \<open>
  One pass takes a private copy of the record the pointer holds, applies the mutation
  function to the copy and attempts the update on it. \<open>private_copy m w\<close> is the
  state with the mutated copy \<open>m\<close> as a new cell, whose pointer is
  \<open>length (heap w)\<close>. \<open>retries\<close> is the one way a pass starts over: the update
  failed with a version conflict and the re-read found the record. \<open>finishes\<close> lists the
  ways a pass leaves the loop: the mutation failed; the update committed; the update
  failed otherwise; the re-read failed; or a pointer held no struct.
\<close>

definition private_copy :: "'p Execution \<Rightarrow> 'p world \<Rightarrow> 'p world" where
  "private_copy m w = w\<lparr>heap := heap w @ [m]\<rparr>"

inductive retries ::
  "('p world \<Rightarrow> ptr \<Rightarrow> 'p world \<times> error option) \<Rightarrow>
   ('p world \<Rightarrow> int64 \<Rightarrow> int64 \<Rightarrow> 'p world \<times> (error + ptr)) \<Rightarrow> 'p mutation \<Rightarrow>
   'p world \<times> ptr \<Rightarrow> 'p world \<times> ptr \<Rightarrow> bool"
  for upd fnd mutateFn where
  conflict:
    "deref w e = Some ev \<Longrightarrow> mutateFn ev = (m, None) \<Longrightarrow>
     upd (private_copy m w) (length (heap w)) = (w', Some ErrVersionConflict) \<Longrightarrow>
     deref w' e = Some cur \<Longrightarrow>
     fnd w' (PipelineID cur) (Number cur) = (w'', Inr found) \<Longrightarrow>
     retries upd fnd mutateFn (w, e) (w'', found)"

inductive finishes ::
  "('p world \<Rightarrow> ptr \<Rightarrow> 'p world \<times> error option) \<Rightarrow>
   ('p world \<Rightarrow> int64 \<Rightarrow> int64 \<Rightarrow> 'p world \<times> (error + ptr)) \<Rightarrow> 'p mutation \<Rightarrow>
   'p world \<times> ptr \<Rightarrow> 'p world \<times> (error + ptr) \<Rightarrow> bool"
  for upd fnd mutateFn where
  mutation_error:
    "deref w e = Some ev \<Longrightarrow> mutateFn ev = (m, Some err) \<Longrightarrow>
     finishes upd fnd mutateFn (w, e) (private_copy m w, Inl err)"
| committed:
    "deref w e = Some ev \<Longrightarrow> mutateFn ev = (m, None) \<Longrightarrow>
     upd (private_copy m w) (length (heap w)) = (w', None) \<Longrightarrow>
     finishes upd fnd mutateFn (w, e) (w', Inr (length (heap w)))"
| update_error:
    "deref w e = Some ev \<Longrightarrow> mutateFn ev = (m, None) \<Longrightarrow>
     upd (private_copy m w) (length (heap w)) = (w', Some err) \<Longrightarrow>
     err \<noteq> ErrVersionConflict \<Longrightarrow>
     finishes upd fnd mutateFn (w, e) (w', Inl err)"
| find_error:
    "deref w e = Some ev \<Longrightarrow> mutateFn ev = (m, None) \<Longrightarrow>
     upd (private_copy m w) (length (heap w)) = (w', Some ErrVersionConflict) \<Longrightarrow>
     deref w' e = Some cur \<Longrightarrow>
     fnd w' (PipelineID cur) (Number cur) = (w'', Inl err) \<Longrightarrow>
     finishes upd fnd mutateFn (w, e) (w'', Inl err)"
| no_record:
    "deref w e = None \<Longrightarrow> finishes upd fnd mutateFn (w, e) (w, Inl NilDereference)"
| record_lost:
    "deref w e = Some ev \<Longrightarrow> mutateFn ev = (m, None) \<Longrightarrow>
     upd (private_copy m w) (length (heap w)) = (w', Some ErrVersionConflict) \<Longrightarrow>
     deref w' e = None \<Longrightarrow>
     finishes upd fnd mutateFn (w, e) (w', Inl NilDereference)"

section \<open>Columns assigned, records persisted, sequences of calls\<close>

text \<open>The items of a column list, whether or not the list parses.\<close>

definition assigned :: "'a token list \<Rightarrow> 'a list" where
  "assigned toks = concat (map (\<lambda>t. case t of Comma \<Rightarrow> [] | Item x \<Rightarrow> [x]) toks)"


text \<open>
  A call of one of the store's operations. \<open>perform\<close> gives the state after the call
  and, when the call was an update that committed, the \<open>execution_id\<close> of the record
  it committed: for \<open>Update\<close> returning \<open>nil\<close> the id of the caller's record, which
  the predicate of the statement names, and for \<open>UpdateOptLock\<close> the id of the record
  it returns. \<open>run\<close> performs a sequence of calls and lists the state after each with
  that id; it is \<open>None\<close> when a call does not return.
\<close>

datatype 'p call =
    Call_Find int64 int64
  | Call_Create ptr
  | Call_Update ptr
  | Call_UpdateOptLock ptr "'p mutation"
  | Call_List int64 Pagination
  | Call_Count int64
  | Call_Delete int64 int64

definition perform :: "('p::zero) call \<Rightarrow> 'p world \<Rightarrow> ('p world \<times> int64 option) option" where
  "perform c w =
     (case c of
        Call_Find pipelineID executionNum \<Rightarrow> Some (fst (Find w pipelineID executionNum), None)
      | Call_Create e \<Rightarrow> Some (fst (Create w e), None)
      | Call_Update e \<Rightarrow>
          Some (fst (Update w e),
                if snd (Update w e) = None then map_option ID (deref w e) else None)
      | Call_UpdateOptLock e mutateFn \<Rightarrow>
          map_option
            (\<lambda>(w', res). (w', case res of Inl err \<Rightarrow> None | Inr p \<Rightarrow> map_option ID (deref w' p)))
            (UpdateOptLock w e mutateFn)
      | Call_List pipelineID pagination \<Rightarrow> Some (fst (List w pipelineID pagination), None)
      | Call_Count pipelineID \<Rightarrow> Some (fst (Count w pipelineID), None)
      | Call_Delete pipelineID executionNum \<Rightarrow>
          Some (fst (Delete w pipelineID executionNum), None))"

fun run :: "('p::zero) call list \<Rightarrow> 'p world \<Rightarrow> ('p world \<times> int64 option) list option" where
  "run [] w = Some []"
| "run (c # cs) w =
     (case perform c w of
        None \<Rightarrow> None
      | Some (w', committed) \<Rightarrow> map_option ((#) (w', committed)) (run cs w'))"

section \<open>Inputs of the examples\<close>

text \<open>Worlds with one persisted execution of pipeline 7, at version 3.\<close>

definition execution_a :: "nat Execution" where
  "execution_a = new_Execution\<lparr>ID := 1, PipelineID := 7, Number := 1, Updated := 1000,
     Version := 3\<rparr>"

definition world_a :: "nat world" where
  "world_a = \<lparr>executions = [execution_a], next_id = 2, clock = of_nat, ticks = 5000,
     heap = [execution_a]\<rparr>"

definition world_stale :: "nat world" where
  "world_stale = world_a\<lparr>heap := [execution_a\<lparr>Version := 2\<rparr>]\<rparr>"

definition world_deleted :: "nat world" where
  "world_deleted = world_a\<lparr>executions := []\<rparr>"

text \<open>
  A table of 25 executions of pipeline 7, numbered 1 to 25, with two executions of
  pipeline 8 among them.
\<close>

definition execution_n :: "int64 \<Rightarrow> int64 \<Rightarrow> nat Execution" where
  "execution_n pipelineID n = new_Execution\<lparr>ID := 100 * pipelineID + n, PipelineID := pipelineID,
     Number := n\<rparr>"

definition world_25 :: "nat world" where
  "world_25 = \<lparr>executions =
       execution_n 8 1 #
       map (execution_n 7) [1, 2, 3, 4, 5, 6, 7, 8, 9, 10, 11, 12, 13] @
       execution_n 8 2 #
       map (execution_n 7) [14, 15, 16, 17, 18, 19, 20, 21, 22, 23, 24, 25],
     next_id = 1000, clock = of_nat, ticks = 0, heap = []\<rparr>"



text \<open>
  Mutation functions: one sets the status, one sets the title, one fails on a record at
  version 3.
\<close>

definition set_status :: "nat mutation" where
  "set_status r = (r\<lparr>Fields := (Fields r)(execution_status := 1)\<rparr>, None)"

definition refuse_version_3 :: "nat mutation" where
  "refuse_version_3 r =
     (if Version r = 3 then (r, Some (ErrCustom ''finished'')) else set_status r)"

definition set_title :: "nat mutation" where
  "set_title r = (r\<lparr>Fields := (Fields r)(execution_title := 9)\<rparr>, None)"

text \<open>
  Two behaviours of the update call under concurrent writers, as inputs for the loop:
  one reports a version conflict on its first call (at clock tick 5000) and commits
  afterwards, one reports a version conflict on every call. \<open>world_reread\<close> is the
  state after a first pass of the loop from \<open>world_stale\<close> that ended in a conflict
  and a re-read.
\<close>

definition conflict_first :: "nat world \<Rightarrow> ptr \<Rightarrow> nat world \<times> error option" where
  "conflict_first w p =
     (if ticks w = 5000 then (w\<lparr>ticks := 5001\<rparr>, Some ErrVersionConflict) else (w, None))"

definition always_conflict :: "nat world \<Rightarrow> ptr \<Rightarrow> nat world \<times> error option" where
  "always_conflict w p = (w, Some ErrVersionConflict)"

definition world_reread :: "nat world" where
  "world_reread = world_stale\<lparr>ticks := 5001,
     heap := [execution_a\<lparr>Version := 2\<rparr>,
              fst (set_status (execution_a\<lparr>Version := 2\<rparr>)), execution_a]\<rparr>"

text \<open>A state of the loop under \<open>always_conflict\<close>: the record is stored and readable.\<close>

definition contended :: "nat world \<times> ptr \<Rightarrow> bool" where
  "contended s \<longleftrightarrow>
     executions (fst s) = [execution_a]
     \<and> (\<exists>ev. deref (fst s) (snd s) = Some ev \<and> PipelineID ev = 7 \<and> Number ev = 1)"

section \<open>Reading the statements\<close>

lemma executionUpdateStmt_syntax: "comma_list executionUpdateStmt = None"
  by (simp add: executionUpdateStmt_def)

lemma executionColumns_parse:
  "comma_list executionColumns =
     Some [execution_id, execution_pipeline_id, F execution_repo_id, F execution_trigger,
       execution_number, F execution_parent, F execution_status, F execution_error,
       F execution_event, F execution_action, F execution_link, F execution_timestamp,
       F execution_title, F execution_message, F execution_before, F execution_after,
       F execution_ref, F execution_source_repo, F execution_source, F execution_target,
       F execution_author, F execution_author_name, F execution_author_email,
       F execution_author_avatar, F execution_sender, F execution_params, F execution_cron,
       F execution_deploy, F execution_deploy_id, F execution_debug, F execution_started,
       F execution_finished, F execution_created, execution_updated, execution_version]"
  by (simp add: executionColumns_def)

lemma executionInsertStmt_parse:
  "comma_list executionInsertStmt =
     Some [execution_pipeline_id, F execution_repo_id, F execution_trigger,
       execution_number, F execution_parent, F execution_status, F execution_error,
       F execution_event, F execution_action, F execution_link, F execution_timestamp,
       F execution_title, F execution_message, F execution_before, F execution_after,
       F execution_ref, F execution_source_repo, F execution_source, F execution_target,
       F execution_author, F execution_author_name, F execution_author_email,
       F execution_author_avatar, F execution_sender, F execution_params, F execution_cron,
       F execution_deploy, F execution_deploy_id, F execution_debug, F execution_started,
       F execution_finished, F execution_created, execution_updated, execution_version]"
  by (simp add: executionInsertStmt_def)

text \<open>The select list names every column: a scanned struct is the row.\<close>

lemma scan_row:
  assumes "comma_list executionColumns = Some cols"
  shows "copy_columns cols row new_Execution = row"
proof -
  have "Fields (copy_columns cols row new_Execution) f = Fields row f" for f
    using assms unfolding executionColumns_parse
    by (cases f) (auto simp: copy_columns_def new_Execution_def)
  moreover have "ID (copy_columns cols row new_Execution) = ID row"
    "PipelineID (copy_columns cols row new_Execution) = PipelineID row"
    "Number (copy_columns cols row new_Execution) = Number row"
    "Updated (copy_columns cols row new_Execution) = Updated row"
    "Version (copy_columns cols row new_Execution) = Version row"
    using assms unfolding executionColumns_parse
    by (auto simp: copy_columns_def new_Execution_def)
  ultimately show ?thesis
    by (intro Execution.equality ext) simp_all
qed

lemma exec_select_executionColumns:
  "exec_select executionColumns wh rows = Inr (filter wh rows)"
proof -
  obtain cols where c: "comma_list executionColumns = Some cols"
    using executionColumns_parse by blast
  have "map (\<lambda>row. copy_columns cols row new_Execution) (filter wh rows) = filter wh rows"
    by (simp add: scan_row [OF c])
  with c show ?thesis by (simp add: exec_select_def)
qed

text \<open>The insert list names every column but \<open>execution_id\<close>.\<close>

lemma insert_row:
  assumes "comma_list executionInsertStmt = Some cols"
  shows "copy_columns cols arg (new_Execution\<lparr>ID := i\<rparr>) = arg\<lparr>ID := i\<rparr>"
proof -
  have "Fields (copy_columns cols arg (new_Execution\<lparr>ID := i\<rparr>)) f = Fields arg f" for f
    using assms unfolding executionInsertStmt_parse
    by (cases f) (auto simp: copy_columns_def new_Execution_def)
  moreover have "ID (copy_columns cols arg (new_Execution\<lparr>ID := i\<rparr>)) = i"
    "PipelineID (copy_columns cols arg (new_Execution\<lparr>ID := i\<rparr>)) = PipelineID arg"
    "Number (copy_columns cols arg (new_Execution\<lparr>ID := i\<rparr>)) = Number arg"
    "Updated (copy_columns cols arg (new_Execution\<lparr>ID := i\<rparr>)) = Updated arg"
    "Version (copy_columns cols arg (new_Execution\<lparr>ID := i\<rparr>)) = Version arg"
    using assms unfolding executionInsertStmt_parse
    by (auto simp: copy_columns_def new_Execution_def)
  ultimately show ?thesis
    by (intro Execution.equality ext) simp_all
qed

text \<open>A list that parses is the list of its items.\<close>

lemma comma_items_assigned: "comma_items toks = Some xs \<Longrightarrow> xs = assigned toks"
  by (induction toks arbitrary: xs rule: comma_items.induct) (auto simp: assigned_def)

lemma comma_list_assigned: "comma_list toks = Some xs \<Longrightarrow> xs = assigned toks"
  by (cases toks rule: comma_list.cases)
     (auto simp: assigned_def dest: comma_items_assigned [unfolded assigned_def])

lemma assigned_executionUpdateStmt:
  "assigned executionUpdateStmt =
     [F execution_status, F execution_error, F execution_event, F execution_started,
      F execution_finished, execution_updated, execution_version]"
  by (simp add: assigned_def executionUpdateStmt_def)

text \<open>
  Whatever its \<open>SET\<close> list and predicate, an \<open>UPDATE\<close> leaves every column that the
  list does not name as it was, in every row.
\<close>

lemma same_column_refl: "same_column c r r"
  by (cases c) simp_all

lemma copy_column_frame: "c \<noteq> c' \<Longrightarrow> same_column c (copy_column c' arg row) row"
  by (cases c; cases c') auto

lemma same_column_trans:
  "same_column c r1 r2 \<Longrightarrow> same_column c r2 r3 \<Longrightarrow> same_column c r1 r3"
  by (cases c) simp_all

lemma copy_columns_frame: "c \<notin> set cols \<Longrightarrow> same_column c (copy_columns cols arg row) row"
proof (induction cols)
  case Nil
  then show ?case by (simp add: copy_columns_def same_column_refl)
next
  case (Cons c' cols)
  then have "same_column c (copy_columns cols arg row) row" and "c \<noteq> c'" by auto
  moreover have "copy_columns (c' # cols) arg row = copy_column c' arg (copy_columns cols arg row)"
    by (simp add: copy_columns_def)
  ultimately show ?case
    by (metis copy_column_frame same_column_trans)
qed

lemma exec_update_frame:
  assumes "exec_update toks wh arg rows = Inr (k, rows')" and "c \<notin> set (assigned toks)"
  shows "list_all2 (same_column c) rows' rows"
proof -
  from assms(1) obtain cols where p: "comma_list toks = Some cols"
    and r: "rows' = map (\<lambda>row. if wh arg row then copy_columns cols arg row else row) rows"
    by (auto simp: exec_update_def split: option.splits)
  from comma_list_assigned [OF p] assms(2) have "c \<notin> set cols" by simp
  then show ?thesis
    unfolding r list_all2_map1 list_all2_same
    by (simp add: copy_columns_frame same_column_refl)
qed




section \<open>Update\<close>

text \<open>
  The database rejects the text of \<open>executionUpdateStmt\<close>, so every call of \<open>Update\<close>
  reads the clock and returns an error: the driver's, under the message of the call, or
  the panic of a pointer without struct. It writes neither table nor heap.
\<close>

lemma Update_result:
  "Update w e =
     (w\<lparr>ticks := Suc (ticks w)\<rparr>,
      Some (if e < length (heap w) then ErrSQL ''Failed to update execution''
            else NilDereference))"
  by (simp add: Update_def time_Now_UnixMilli_def deref_def exec_update_def
      executionUpdateStmt_syntax ProcessSQLErrorf_def Let_def)

text \<open>
  C1. The claim: \<open>Update\<close> called with the persisted version succeeds, adds one to the
  persisted version, sets \<open>updatedAt\<close> and writes both onto the caller's record. The
  code at such a call: in \<open>world_a\<close> the caller's record and the persisted row both
  carry version 3, and \<open>Update\<close> returns the error of the rejected statement; the
  persisted row and the caller's record keep version 3 and their \<open>Updated\<close> stamp.
\<close>

theorem Update_current_version_fails:
  "deref world_a 0 = Some execution_a \<and> executions world_a = [execution_a]
   \<and> snd (Update world_a 0) = Some (ErrSQL ''Failed to update execution'')
   \<and> executions (fst (Update world_a 0)) = [execution_a]
   \<and> heap (fst (Update world_a 0)) = [execution_a]
   \<and> Version execution_a = 3 \<and> Updated execution_a = 1000"
  by (simp add: Update_result world_a_def deref_def execution_a_def)

text \<open>
  C2. The claim: \<open>Update\<close> called with a version other than the persisted one, or for
  a deleted record, fails with \<open>ErrVersionConflict\<close> and leaves the persisted record
  unchanged. The code at such calls: with the caller at version 2 and the row at version
  3, and with the row deleted, the persisted rows are unchanged, and the error returned
  is the one of the rejected statement, not \<open>ErrVersionConflict\<close>.
\<close>

theorem Update_stale_version_no_conflict_error:
  "map Version (heap world_stale) = [2] \<and> map Version (executions world_stale) = [3]
   \<and> snd (Update world_stale 0) = Some (ErrSQL ''Failed to update execution'')
   \<and> snd (Update world_stale 0) \<noteq> Some ErrVersionConflict
   \<and> executions (fst (Update world_stale 0)) = executions world_stale
   \<and> executions world_deleted = []
   \<and> snd (Update world_deleted 0) = Some (ErrSQL ''Failed to update execution'')
   \<and> snd (Update world_deleted 0) \<noteq> Some ErrVersionConflict
   \<and> executions (fst (Update world_deleted 0)) = []"
  by (simp add: Update_result world_stale_def world_deleted_def world_a_def execution_a_def)

text \<open>
  Whatever the database answers to the statement, \<open>Update\<close> leaves the columns that
  the \<open>SET\<close> list does not name as they were.
\<close>

lemma Update_frame:
  assumes "c \<notin> set (assigned executionUpdateStmt)"
  shows "list_all2 (same_column c) (executions (fst (Update w e))) (executions w)"
proof -
  let ?w = "snd (time_Now_UnixMilli w)"
  have same: "list_all2 (same_column c) (executions w) (executions w)"
    by (simp add: list_all2_same same_column_refl)
  have ex: "executions ?w = executions w"
    by (simp add: time_Now_UnixMilli_def)
  show ?thesis
  proof (cases "deref ?w e")
    case None
    then show ?thesis using same
      by (simp add: Update_def split_beta ex)
  next
    case (Some ev)
    let ?arg = "ev\<lparr>Version := Version ev + 1, Updated := fst (time_Now_UnixMilli w)\<rparr>"
    show ?thesis
    proof (cases "exec_update executionUpdateStmt executionUpdateStmt_where ?arg (executions w)")
      case (Inl err)
      with Some show ?thesis using same
        by (simp add: Update_def split_beta ex Let_def)
    next
      case (Inr res)
      obtain k rows' where res: "res = (k, rows')" by (cases res)
      from exec_update_frame [OF Inr [unfolded res] assms]
      have "list_all2 (same_column c) rows' (executions w)" .
      with Some Inr res show ?thesis
        by (simp add: Update_def split_beta ex Let_def store_def)
    qed
  qed
qed

section \<open>Find, Create and Delete\<close>

lemma Find_result:
  "Find w pipelineID executionNum =
     (case filter (identity_where pipelineID executionNum) (executions w) of
        [] \<Rightarrow> (w\<lparr>heap := heap w @ [new_Execution]\<rparr>, Inl ErrResourceNotFound)
      | row # _ \<Rightarrow> (w\<lparr>heap := heap w @ [row]\<rparr>, Inr (length (heap w))))"
  by (simp add: Find_def alloc_def store_def exec_select_executionColumns ProcessSQLErrorf_def
      split: list.splits)

lemma Create_result:
  "Create w e =
     (if e < length (heap w) then
        if list_ex (identity_where (PipelineID (heap w ! e)) (Number (heap w ! e))) (executions w)
        then (w, Some ErrDuplicate)
        else (w\<lparr>executions := executions w @ [(heap w ! e)\<lparr>ID := next_id w\<rparr>],
                next_id := next_id w + 1,
                heap := (heap w)[e := (heap w ! e)\<lparr>ID := next_id w\<rparr>]\<rparr>, None)
      else (w, Some NilDereference))"
proof -
  obtain cols where c: "comma_list executionInsertStmt = Some cols"
    using executionInsertStmt_parse by blast
  show ?thesis
    by (simp add: Create_def deref_def exec_insert_def c insert_row [OF c] store_def
        ProcessSQLErrorf_def)
qed

text \<open>
  C6. The claim: \<open>Delete\<close> of an identity that is not in the store returns a not-found
  error. The code: the \<open>DELETE\<close> statement removes no row, which is no error of the
  database, and \<open>Delete\<close> does not look at the number of rows removed; it returns
  \<open>nil\<close>. In \<open>world_deleted\<close> no execution is stored at all.
\<close>

theorem Delete_missing_identity_returns_nil:
  "\<not> list_ex (identity_where 7 1) (executions world_deleted)
   \<and> snd (Delete world_deleted 7 1) = None
   \<and> snd (Delete world_deleted 7 1) \<noteq> Some ErrResourceNotFound"
  by (simp add: Delete_def world_deleted_def)

text \<open>
  C6, as the code has it: \<open>Delete\<close> returns \<open>nil\<close> for every identity, stored or
  not; it removes the rows of that identity and keeps every other row, in order; and
  \<open>Find\<close> on the same identity after it returns \<open>ErrResourceNotFound\<close>.
\<close>

theorem Delete_removes_identity:
  "snd (Delete w pipelineID executionNum) = None
   \<and> executions (fst (Delete w pipelineID executionNum)) =
       filter (\<lambda>row. \<not> identity_where pipelineID executionNum row) (executions w)
   \<and> snd (Find (fst (Delete w pipelineID executionNum)) pipelineID executionNum) =
       Inl ErrResourceNotFound"
  by (simp add: Delete_def exec_delete_def Find_result)

text \<open>
  C7. The claim: after \<open>Create\<close>, \<open>Find\<close> returns the record but for the fields that
  \<open>Create\<close> itself assigns, the generated identity, the version and \<open>updatedAt\<close>.
  The code: the insert statement binds \<open>:execution_version\<close> and
  \<open>:execution_updated\<close> from the caller's struct like every other column, and
  \<open>Create\<close> reads no clock. A caller's record at version 3 with \<open>Updated\<close> 1000 is
  persisted and found with 3 and 1000, one at version 9 with \<open>Updated\<close> 77 with 9 and
  77, while the clock reads 5000.
\<close>

theorem Create_persists_caller_version:
  "snd (Create world_deleted 0) = None
   \<and> ticks (fst (Create world_deleted 0)) = ticks world_deleted
   \<and> clock world_deleted (ticks world_deleted) = 5000
   \<and> (\<exists>w2 p found. Find (fst (Create world_deleted 0)) 7 1 = (w2, Inr p)
         \<and> deref w2 p = Some found \<and> Version found = 3 \<and> Updated found = 1000)
   \<and> (\<exists>w2 p found.
         Find (fst (Create (world_deleted\<lparr>heap := [execution_a\<lparr>Version := 9, Updated := 77\<rparr>]\<rparr>) 0))
           7 1 = (w2, Inr p)
         \<and> deref w2 p = Some found \<and> Version found = 9 \<and> Updated found = 77)"
  by (simp add: Create_result Find_result deref_def world_deleted_def world_a_def
      identity_where_def execution_a_def new_Execution_def)

text \<open>
  C7, as the code has it. Round trip: after a \<open>Create\<close> of the record \<open>r\<close> that
  returned \<open>nil\<close>, \<open>Find\<close> on the pipeline id and number of \<open>r\<close> returns a record
  \<open>found\<close> that is \<open>r\<close> in every field but \<open>ID\<close>. \<open>ID\<close> is the generated id, the
  one field that \<open>Create\<close> assigns, and \<open>Create\<close> has written it to the caller's
  record too; \<open>Version\<close> and \<open>Updated\<close> come back as the caller passed them.
\<close>

theorem Create_Find_roundtrip:
  assumes "deref w e = Some r" and "Create w e = (w1, None)"
  shows "\<exists>w2 p found. Find w1 (PipelineID r) (Number r) = (w2, Inr p)
           \<and> deref w2 p = Some found \<and> found = r\<lparr>ID := ID found\<rparr>
           \<and> ID found = next_id w \<and> deref w1 e = Some found
           \<and> Version found = Version r \<and> Updated found = Updated r"
proof -
  from assms(1) have e: "e < length (heap w)" and r: "heap w ! e = r"
    by (auto simp: deref_def split: if_splits)
  from assms(2) e r have fresh: "\<not> list_ex (identity_where (PipelineID r) (Number r)) (executions w)"
    and w1: "w1 = w\<lparr>executions := executions w @ [r\<lparr>ID := next_id w\<rparr>],
                next_id := next_id w + 1,
                heap := (heap w)[e := r\<lparr>ID := next_id w\<rparr>]\<rparr>"
    by (auto simp: Create_result split: if_splits)
  from fresh have "filter (identity_where (PipelineID r) (Number r)) (executions w) = []"
    by (simp add: list_ex_iff filter_empty_conv)
  then have "filter (identity_where (PipelineID r) (Number r)) (executions w1)
      = [r\<lparr>ID := next_id w\<rparr>]"
    by (simp add: w1 identity_where_def)
  then have "Find w1 (PipelineID r) (Number r)
      = (w1\<lparr>heap := heap w1 @ [r\<lparr>ID := next_id w\<rparr>]\<rparr>, Inr (length (heap w1)))"
    by (simp add: Find_result)
  moreover have "deref w1 e = Some (r\<lparr>ID := next_id w\<rparr>)"
    using e by (simp add: w1 deref_def)
  ultimately show ?thesis
    by (simp add: deref_def)
qed

theorem Create_Find_roundtrip_witness:
  "deref world_deleted 0 = Some execution_a
   \<and> snd (Create world_deleted 0) = None
   \<and> (\<exists>w2 p found. Find (fst (Create world_deleted 0)) 7 1 = (w2, Inr p)
           \<and> deref w2 p = Some found \<and> found = execution_a\<lparr>ID := 2\<rparr>
           \<and> deref (fst (Create world_deleted 0)) 0 = Some found
           \<and> Version found = 3 \<and> Updated found = 1000)"
proof -
  have d: "deref world_deleted 0 = Some execution_a"
    by (simp add: deref_def world_deleted_def world_a_def)
  have c: "Create world_deleted 0 = (fst (Create world_deleted 0), None)"
    by (simp add: Create_result world_deleted_def world_a_def)
  have n: "next_id world_deleted = 2" "PipelineID execution_a = 7" "Number execution_a = 1"
    "Version execution_a = 3" "Updated execution_a = 1000"
    by (simp_all add: world_deleted_def world_a_def execution_a_def new_Execution_def)
  have s: "snd (Create world_deleted 0) = None"
    by (simp add: Create_result world_deleted_def world_a_def)
  from Create_Find_roundtrip [OF d c] d s n show ?thesis
    by auto
qed

section \<open>List and Count\<close>

lemma List_result:
  "List w pipelineID pg =
     (w\<lparr>heap := heap w @ limit_offset (Limit (Size pg)) (Offset (Page pg) (Size pg))
                         (filter (pipeline_where pipelineID) (executions w))\<rparr>,
      Inr [length (heap w) ..<
           length (heap w) + length (limit_offset (Limit (Size pg)) (Offset (Page pg) (Size pg))
                         (filter (pipeline_where pipelineID) (executions w)))])"
  by (simp add: List_def exec_select_executionColumns alloc_all_def)

lemma map_nth_appended: "map ((!) (xs @ ys)) [length xs ..< length xs + length ys] = ys"
  by (rule nth_equalityI) (simp_all add: nth_append)

text \<open>
  C8. For a pagination with page and size at least 1, \<open>List\<close> returns pointers to
  the matching rows at offsets \<open>(page - 1) * size\<close> up to \<open>(page - 1) * size + size - 1\<close>
  of the store's order (fewer where the matching rows end), and \<open>Count\<close> returns the
  number of all matching rows. The witness is the spec's scenario: page 2 of size 10 over
  25 matching rows is rows 11 to 20, and the count is 25.
\<close>

theorem List_page_Count_total:
  assumes "1 \<le> Page pg" and "1 \<le> Size pg"
  shows "(\<exists>w' ptrs. List w pipelineID pg = (w', Inr ptrs)
           \<and> map (deref w') ptrs =
               map Some (take (nat (Size pg)) (drop (nat ((Page pg - 1) * Size pg))
                 (filter (pipeline_where pipelineID) (executions w)))))
         \<and> snd (Count w pipelineID) =
               Inr (of_nat (length (filter (pipeline_where pipelineID) (executions w))))"
proof -
  let ?page = "limit_offset (Limit (Size pg)) (Offset (Page pg) (Size pg))
                 (filter (pipeline_where pipelineID) (executions w))"
  let ?w' = "w\<lparr>heap := heap w @ ?page\<rparr>"
  let ?ptrs = "[length (heap w) ..< length (heap w) + length ?page]"
  have "map (deref ?w') ?ptrs = map Some (map ((!) (heap w @ ?page)) ?ptrs)"
    by (simp add: deref_def)
  also have "\<dots> = map Some ?page"
    by (simp only: map_nth_appended)
  finally have "map (deref ?w') ?ptrs = map Some ?page" .
  then show ?thesis
    by (simp add: List_result Count_def limit_offset_def Limit_def Offset_def)
qed

theorem List_page_Count_total_witness:
  "(1::int) \<le> Page \<lparr>Page = 2, Size = 10\<rparr> \<and> (1::int) \<le> Size \<lparr>Page = 2, Size = 10\<rparr>
   \<and> (\<exists>w' ptrs. List world_25 7 \<lparr>Page = 2, Size = 10\<rparr> = (w', Inr ptrs)
         \<and> map (deref w') ptrs =
             map Some (map (execution_n 7) [11, 12, 13, 14, 15, 16, 17, 18, 19, 20]))
   \<and> snd (Count world_25 7) = Inr 25"
proof -
  have m: "filter (pipeline_where 7) (executions world_25)
     = map (execution_n 7) [1, 2, 3, 4, 5, 6, 7, 8, 9, 10, 11, 12, 13, 14, 15, 16, 17, 18, 19,
         20, 21, 22, 23, 24, 25]"
    by (simp add: world_25_def pipeline_where_def execution_n_def)
  from List_page_Count_total [of "\<lparr>Page = 2, Size = 10\<rparr>" world_25 7] show ?thesis
    unfolding m by simp
qed

section \<open>UpdateOptLock\<close>

text \<open>One pass of the loop of \<open>UpdateOptLock_on\<close>, with the copy made explicit.\<close>

lemma pass_shape:
  "(case deref w e of
      None \<Rightarrow> Some (w, Inl NilDereference)
    | Some ev \<Rightarrow>
        (let (dup, w1) = alloc ev w;
             (mutated, merr) = mutateFn ev;
             w2 = store dup mutated w1
         in (case merr of
               Some err \<Rightarrow> Some (w2, Inl err)
             | None \<Rightarrow>
                 (case upd w2 dup of
                    (w3, None) \<Rightarrow> Some (w3, Inr dup)
                  | (w3, Some err) \<Rightarrow>
                      (if err \<noteq> ErrVersionConflict then Some (w3, Inl err)
                       else (case deref w3 e of
                               None \<Rightarrow> Some (w3, Inl NilDereference)
                             | Some cur \<Rightarrow>
                                 (case fnd w3 (PipelineID cur) (Number cur) of
                                    (w4, Inl err) \<Rightarrow> Some (w4, Inl err)
                                  | (w4, Inr found) \<Rightarrow> loop upd fnd w4 found mutateFn)))))))
   = (case deref w e of
        None \<Rightarrow> Some (w, Inl NilDereference)
      | Some ev \<Rightarrow>
          (case mutateFn ev of
             (m, Some err) \<Rightarrow> Some (private_copy m w, Inl err)
           | (m, None) \<Rightarrow>
               (case upd (private_copy m w) (length (heap w)) of
                  (w', None) \<Rightarrow> Some (w', Inr (length (heap w)))
                | (w', Some err) \<Rightarrow>
                    (if err \<noteq> ErrVersionConflict then Some (w', Inl err)
                     else (case deref w' e of
                             None \<Rightarrow> Some (w', Inl NilDereference)
                           | Some cur \<Rightarrow>
                               (case fnd w' (PipelineID cur) (Number cur) of
                                  (w'', Inl err) \<Rightarrow> Some (w'', Inl err)
                                | (w'', Inr found) \<Rightarrow> loop upd fnd w'' found mutateFn))))))"
  by (simp add: alloc_def store_def private_copy_def Let_def split: option.splits prod.splits)

lemma loop_pass:
  "UpdateOptLock_on upd fnd w e mutateFn =
     (case deref w e of
        None \<Rightarrow> Some (w, Inl NilDereference)
      | Some ev \<Rightarrow>
          (case mutateFn ev of
             (m, Some err) \<Rightarrow> Some (private_copy m w, Inl err)
           | (m, None) \<Rightarrow>
               (case upd (private_copy m w) (length (heap w)) of
                  (w', None) \<Rightarrow> Some (w', Inr (length (heap w)))
                | (w', Some err) \<Rightarrow>
                    (if err \<noteq> ErrVersionConflict then Some (w', Inl err)
                     else (case deref w' e of
                             None \<Rightarrow> Some (w', Inl NilDereference)
                           | Some cur \<Rightarrow>
                               (case fnd w' (PipelineID cur) (Number cur) of
                                  (w'', Inl err) \<Rightarrow> Some (w'', Inl err)
                                | (w'', Inr found) \<Rightarrow>
                                    UpdateOptLock_on upd fnd w'' found mutateFn))))))"
  by (subst UpdateOptLock_on.simps) (rule pass_shape)

lemma loop_retries:
  assumes "retries upd fnd mutateFn s s'"
  shows "UpdateOptLock_on upd fnd (fst s) (snd s) mutateFn
         = UpdateOptLock_on upd fnd (fst s') (snd s') mutateFn"
  using assms
  by (cases rule: retries.cases) (subst loop_pass, simp)

lemma loop_retries_star:
  assumes "(retries upd fnd mutateFn)\<^sup>*\<^sup>* s s'"
  shows "UpdateOptLock_on upd fnd (fst s) (snd s) mutateFn
         = UpdateOptLock_on upd fnd (fst s') (snd s') mutateFn"
  using assms by (induction rule: rtranclp_induct) (simp_all add: loop_retries)

lemma loop_finishes:
  assumes "finishes upd fnd mutateFn s r"
  shows "UpdateOptLock_on upd fnd (fst s) (snd s) mutateFn = Some r"
  using assms
  by (cases rule: finishes.cases) (subst loop_pass, simp)+

lemma loop_returns:
  assumes "UpdateOptLock_on upd fnd w e mutateFn = Some r"
  shows "\<exists>s. (retries upd fnd mutateFn)\<^sup>*\<^sup>* (w, e) s \<and> finishes upd fnd mutateFn s r"
  using assms
proof (induct rule: UpdateOptLock_on.raw_induct [rotated 1, consumes 1, case_names pass])
  case (pass loop upd fnd w e mutateFn r)
  note body = pass(2) [unfolded pass_shape]
  have here: "finishes upd fnd mutateFn (w, e) r \<Longrightarrow> ?case"
    by (intro exI [of _ "(w, e)"] conjI rtranclp.rtrancl_refl)
  show ?case
  proof (cases "deref w e")
    case None
    with body have "r = (w, Inl NilDereference)" by simp
    then show ?thesis
      using finishes.no_record [where mutateFn = mutateFn and upd = upd and fnd = fnd,
          OF None]
      by (intro here) simp
  next
    case ev: (Some ev)
    obtain m merr where mf: "mutateFn ev = (m, merr)" by (cases "mutateFn ev")
    show ?thesis
    proof (cases merr)
      case (Some err)
      note mf = mf [unfolded Some]
      from body ev mf have "r = (private_copy m w, Inl err)" by simp
      then show ?thesis
        using finishes.mutation_error [where mutateFn = mutateFn and upd = upd and fnd = fnd,
            OF ev mf]
        by (intro here) simp
    next
      case None
      note mok = mf [unfolded None]
      obtain w' uerr where u: "upd (private_copy m w) (length (heap w)) = (w', uerr)"
        by (cases "upd (private_copy m w) (length (heap w))")
      show ?thesis
      proof (cases uerr)
        case None
        note u = u [unfolded None]
        from body ev mok u have "r = (w', Inr (length (heap w)))" by simp
        then show ?thesis
          using finishes.committed [where mutateFn = mutateFn and upd = upd and fnd = fnd,
              OF ev mok u]
          by (intro here) simp
      next
        case (Some err)
        note u = u [unfolded Some]
        show ?thesis
        proof (cases "err = ErrVersionConflict")
          case False
          from body ev mok u False have "r = (w', Inl err)" by simp
          then show ?thesis
            using finishes.update_error [where mutateFn = mutateFn and upd = upd and fnd = fnd,
                OF ev mok u False]
            by (intro here) simp
        next
          case True
          note conflict = u [unfolded True]
          show ?thesis
          proof (cases "deref w' e")
            case None
            from body ev mok conflict None have "r = (w', Inl NilDereference)" by simp
            then show ?thesis
              using finishes.record_lost [where mutateFn = mutateFn and upd = upd and fnd = fnd,
                  OF ev mok conflict None]
              by (intro here) simp
          next
            case cur: (Some cur)
            obtain w'' fr where f: "fnd w' (PipelineID cur) (Number cur) = (w'', fr)"
              by (cases "fnd w' (PipelineID cur) (Number cur)")
            show ?thesis
            proof (cases fr)
              case (Inl ferr)
              note f = f [unfolded Inl]
              from body ev mok conflict cur f have "r = (w'', Inl ferr)" by simp
              then show ?thesis
                using finishes.find_error [where mutateFn = mutateFn and upd = upd and fnd = fnd,
                    OF ev mok conflict cur f]
                by (intro here) simp
            next
              case (Inr found)
              note f = f [unfolded Inr]
              from body ev mok conflict cur f
              have "loop upd fnd w'' found mutateFn = Some r" by simp
              from pass(1) [OF this] obtain s
                where star: "(retries upd fnd mutateFn)\<^sup>*\<^sup>* (w'', found) s"
                  and fin: "finishes upd fnd mutateFn s r" by (elim exE conjE)
              have step: "retries upd fnd mutateFn (w, e) (w'', found)"
                by (rule retries.conflict [where mutateFn = mutateFn and upd = upd and fnd = fnd,
                      OF ev mok conflict cur f])
              have "(retries upd fnd mutateFn)\<^sup>*\<^sup>* (w, e) s"
                by (rule converse_rtranclp_into_rtranclp [OF step star])
              with fin show ?thesis
                by (intro exI [of _ s] conjI)
            qed
          qed
        qed
      qed
    qed
  qed
qed

text \<open>
  C3. \<open>UpdateOptLock\<close> is the retry loop: it returns \<open>r\<close> exactly when some number
  of passes that each ended in a version conflict and a successful re-read (\<open>retries\<close>,
  any number of times: the loop counts nothing) is followed by a pass that \<open>finishes\<close>
  with \<open>r\<close>: the committed copy when the update succeeds, the error of the mutation,
  or the error of the update or of the re-read that ends the loop. This holds for every
  behaviour \<open>upd\<close> and \<open>fnd\<close> of the two store calls, and so for \<open>Update\<close> and
  \<open>Find\<close>, with which the method runs the loop.
\<close>

theorem UpdateOptLock_retry_loop:
  "(UpdateOptLock_on upd fnd w e mutateFn = Some r \<longleftrightarrow>
      (\<exists>s. (retries upd fnd mutateFn)\<^sup>*\<^sup>* (w, e) s \<and> finishes upd fnd mutateFn s r))
   \<and> (UpdateOptLock w e mutateFn = Some r \<longleftrightarrow>
      (\<exists>s. (retries Update Find mutateFn)\<^sup>*\<^sup>* (w, e) s \<and> finishes Update Find mutateFn s r))"
proof -
  have "UpdateOptLock_on u f w e mutateFn = Some r \<longleftrightarrow>
      (\<exists>s. (retries u f mutateFn)\<^sup>*\<^sup>* (w, e) s \<and> finishes u f mutateFn s r)" for u f
  proof
    assume "UpdateOptLock_on u f w e mutateFn = Some r"
    then show "\<exists>s. (retries u f mutateFn)\<^sup>*\<^sup>* (w, e) s \<and> finishes u f mutateFn s r"
      by (rule loop_returns)
  next
    assume "\<exists>s. (retries u f mutateFn)\<^sup>*\<^sup>* (w, e) s \<and> finishes u f mutateFn s r"
    then obtain s where "(retries u f mutateFn)\<^sup>*\<^sup>* (w, e) s"
      and "finishes u f mutateFn s r" by (elim exE conjE)
    then show "UpdateOptLock_on u f w e mutateFn = Some r"
      using loop_retries_star [of u f mutateFn "(w, e)" s] loop_finishes [of u f mutateFn s r]
      by simp
  qed
  then show ?thesis
    unfolding UpdateOptLock_def by (intro conjI)
qed

text \<open>
  With \<open>Update\<close> as it is, \<open>UpdateOptLock\<close> leaves the loop in its first pass: every
  call of it returns, with the error of the mutation or the error of \<open>Update\<close>, and it
  does not write the table.
\<close>

lemma UpdateOptLock_result:
  "UpdateOptLock w e mutateFn =
     Some (case deref w e of
             None \<Rightarrow> (w, Inl NilDereference)
           | Some ev \<Rightarrow>
               (case mutateFn ev of
                  (m, Some err) \<Rightarrow> (private_copy m w, Inl err)
                | (m, None) \<Rightarrow>
                    ((private_copy m w)\<lparr>ticks := Suc (ticks w)\<rparr>,
                     Inl (ErrSQL ''Failed to update execution''))))"
  unfolding UpdateOptLock_def
  by (subst loop_pass)
     (simp add: Update_result private_copy_def split: option.splits prod.splits)

lemma UpdateOptLock_executions:
  "UpdateOptLock w e mutateFn = Some (w', res) \<Longrightarrow> executions w' = executions w"
  by (auto simp: UpdateOptLock_result private_copy_def split: option.splits prod.splits)

text \<open>
  The loop under a store that conflicts once: the first pass from \<open>world_stale\<close> meets
  the conflict and re-reads, the second commits its copy.
\<close>

lemma first_pass_retries:
  assumes f: "f (execution_a\<lparr>Version := 2\<rparr>) = set_status (execution_a\<lparr>Version := 2\<rparr>)"
  shows "retries conflict_first Find f (world_stale, 0) (world_reread, 2)"
proof (rule retries.conflict [where mutateFn = f and upd = conflict_first and fnd = Find])
  show "deref world_stale 0 = Some (execution_a\<lparr>Version := 2\<rparr>)"
    by (simp add: deref_def world_stale_def)
  show "f (execution_a\<lparr>Version := 2\<rparr>)
      = (fst (set_status (execution_a\<lparr>Version := 2\<rparr>)), None)"
    by (simp add: f set_status_def)
  show "conflict_first (private_copy (fst (set_status (execution_a\<lparr>Version := 2\<rparr>))) world_stale)
          (length (heap world_stale))
      = (world_stale\<lparr>ticks := 5001, heap := [execution_a\<lparr>Version := 2\<rparr>,
              fst (set_status (execution_a\<lparr>Version := 2\<rparr>))]\<rparr>, Some ErrVersionConflict)"
    by (simp add: conflict_first_def private_copy_def world_stale_def world_a_def)
  show "deref (world_stale\<lparr>ticks := 5001, heap := [execution_a\<lparr>Version := 2\<rparr>,
              fst (set_status (execution_a\<lparr>Version := 2\<rparr>))]\<rparr>) 0
      = Some (execution_a\<lparr>Version := 2\<rparr>)"
    by (simp add: deref_def)
  show "Find (world_stale\<lparr>ticks := 5001, heap := [execution_a\<lparr>Version := 2\<rparr>,
              fst (set_status (execution_a\<lparr>Version := 2\<rparr>))]\<rparr>)
          (PipelineID (execution_a\<lparr>Version := 2\<rparr>)) (Number (execution_a\<lparr>Version := 2\<rparr>))
      = (world_reread, Inr 2)"
    by (simp add: Find_result world_reread_def world_stale_def world_a_def identity_where_def
        execution_a_def new_Execution_def)
qed

lemma deref_world_reread: "deref world_reread 2 = Some execution_a"
  by (simp add: deref_def world_reread_def)

theorem UpdateOptLock_retry_loop_witness:
  "UpdateOptLock_on conflict_first Find world_stale 0 set_status
     = Some (private_copy (fst (set_status execution_a)) world_reread, Inr 3)
   \<and> (\<exists>s r. UpdateOptLock world_a 0 set_status = Some r
          \<and> (retries Update Find set_status)\<^sup>*\<^sup>* (world_a, 0) s
          \<and> finishes Update Find set_status s r)"
proof -
  have "retries conflict_first Find set_status (world_stale, 0) (world_reread, 2)"
    by (rule first_pass_retries) simp
  then have "(retries conflict_first Find set_status)\<^sup>*\<^sup>* (world_stale, 0) (world_reread, 2)"
    by (rule r_into_rtranclp)
  moreover have "finishes conflict_first Find set_status (world_reread, 2)
      (private_copy (fst (set_status execution_a)) world_reread, Inr (length (heap world_reread)))"
  proof -
    have m: "set_status execution_a = (fst (set_status execution_a), None)"
      by (simp add: set_status_def)
    have c: "conflict_first (private_copy (fst (set_status execution_a)) world_reread)
               (length (heap world_reread))
             = (private_copy (fst (set_status execution_a)) world_reread, None)"
      by (simp add: conflict_first_def private_copy_def world_reread_def)
    show ?thesis
      by (rule finishes.committed [where mutateFn = set_status and upd = conflict_first
            and fnd = Find, OF deref_world_reread m c])
  qed
  moreover have "length (heap world_reread) = 3"
    by (simp add: world_reread_def)
  ultimately have "UpdateOptLock_on conflict_first Find world_stale 0 set_status
     = Some (private_copy (fst (set_status execution_a)) world_reread, Inr 3)"
    using UpdateOptLock_retry_loop [of conflict_first Find world_stale 0 set_status
        "(private_copy (fst (set_status execution_a)) world_reread, Inr 3)"]
    by auto
  moreover have "\<exists>r. UpdateOptLock world_a 0 set_status = Some r"
    by (subst UpdateOptLock_result) (rule exI, rule refl)
  then have "\<exists>s r. UpdateOptLock world_a 0 set_status = Some r
          \<and> (retries Update Find set_status)\<^sup>*\<^sup>* (world_a, 0) s
          \<and> finishes Update Find set_status s r"
    using UpdateOptLock_retry_loop [of Update Find world_a 0 set_status]
    by blast
  ultimately show ?thesis by (rule conjI)
qed

text \<open>
  No bound on the retries: under a store whose update conflicts on every call the loop
  of \<open>UpdateOptLock\<close> never returns.
\<close>

lemma contended_start: "contended (world_a, 0)"
  by (simp add: contended_def world_a_def deref_def execution_a_def)

lemma deref_private_copy:
  "deref w e = Some ev \<Longrightarrow> deref (private_copy m w) e = Some ev"
  by (auto simp: deref_def private_copy_def nth_append split: if_splits)

lemma Find_execution_a:
  "executions w = [execution_a] \<Longrightarrow>
   Find w 7 1 = (w\<lparr>heap := heap w @ [execution_a]\<rparr>, Inr (length (heap w)))"
  by (simp add: Find_result identity_where_def execution_a_def)

lemma contended_retries:
  assumes "retries always_conflict Find set_status s s'" and "contended s"
  shows "contended s'"
  using assms(1)
proof (cases rule: retries.cases)
  case (conflict w e ev m w' cur w'' found)
  from assms(2) conflict(1,3) obtain ex: "executions w = [execution_a]"
    and id: "PipelineID ev = 7" "Number ev = 1"
    by (auto simp: contended_def)
  from conflict(5) have w': "w' = private_copy m w"
    by (simp add: always_conflict_def)
  with conflict(3,6) have "cur = ev"
    by (simp add: deref_private_copy)
  with conflict(7) id w' ex
  have "w'' = w'\<lparr>heap := heap w' @ [execution_a]\<rparr>" and "found = length (heap w')"
    by (simp_all add: Find_execution_a private_copy_def)
  with ex w' conflict(2) show ?thesis
    by (simp add: contended_def deref_def private_copy_def execution_a_def new_Execution_def
        nth_append)
qed

lemma contended_retries_star:
  "(retries always_conflict Find set_status)\<^sup>*\<^sup>* s s' \<Longrightarrow> contended s \<Longrightarrow> contended s'"
  by (induction rule: rtranclp_induct) (auto intro: contended_retries)

lemma contended_never_finishes:
  assumes "finishes always_conflict Find set_status s r" and "contended s"
  shows False
  using assms(1)
proof (cases rule: finishes.cases)
  case (mutation_error w e ev m err)
  then show ?thesis by (simp add: set_status_def)
next
  case (committed w e ev m w')
  then show ?thesis by (simp add: always_conflict_def)
next
  case (update_error w e ev m w' err)
  then show ?thesis by (simp add: always_conflict_def)
next
  case (find_error w e ev m w' cur w'' err)
  from assms(2) find_error(1,3) obtain ex: "executions w = [execution_a]"
    and id: "PipelineID ev = 7" "Number ev = 1"
    by (auto simp: contended_def)
  from find_error(5) have w': "w' = private_copy m w"
    by (simp add: always_conflict_def)
  with find_error(3,6) have "cur = ev"
    by (simp add: deref_private_copy)
  with find_error(7) id w' ex show ?thesis
    by (simp add: Find_execution_a private_copy_def)
next
  case (no_record w e)
  with assms(2) show ?thesis by (simp add: contended_def)
next
  case (record_lost w e ev m w')
  from record_lost(5) have "w' = private_copy m w"
    by (simp add: always_conflict_def)
  with record_lost(3,6) deref_private_copy [of w e ev m] show ?thesis
    by simp
qed

lemma UpdateOptLock_may_retry_forever:
  "UpdateOptLock_on always_conflict Find world_a 0 set_status = None"
proof (cases "UpdateOptLock_on always_conflict Find world_a 0 set_status")
  case None
  then show ?thesis .
next
  case (Some r)
  from loop_returns [OF Some] obtain s
    where "(retries always_conflict Find set_status)\<^sup>*\<^sup>* (world_a, 0) s"
      and "finishes always_conflict Find set_status s r" by (elim exE conjE)
  with contended_retries_star [OF _ contended_start] contended_never_finishes
  show ?thesis by blast
qed

text \<open>
  C4. When the mutation function returns an error on some pass of the loop (the first, or
  one reached through retries), the loop of \<open>UpdateOptLock\<close> returns exactly that
  error, whatever the store calls \<open>upd\<close> and \<open>fnd\<close> do (the method runs the loop
  with \<open>Update\<close> and \<open>Find\<close>). The state
  it returns is the state at the start of that pass with the private copy added to the
  heap: no update was attempted (the result does not depend on \<open>upd\<close>, and the clock that
  \<open>Update\<close> reads was not read), the mutation was not retried, and the table and the
  sequence are as the pass found them.
\<close>

theorem mutation_error_aborts:
  assumes "(retries upd fnd mutateFn)\<^sup>*\<^sup>* (w0, e0) (w, e)"
    and "deref w e = Some ev" and "mutateFn ev = (m, Some err)"
  shows "\<exists>w'. UpdateOptLock_on upd fnd w0 e0 mutateFn = Some (w', Inl err)
           \<and> executions w' = executions w \<and> next_id w' = next_id w
           \<and> ticks w' = ticks w \<and> heap w' = heap w @ [m]"
proof -
  have "UpdateOptLock_on upd fnd w e mutateFn = Some (private_copy m w, Inl err)"
    using assms(2,3) by (subst loop_pass) simp
  with loop_retries_star [OF assms(1)] show ?thesis by (simp add: private_copy_def)
qed

theorem mutation_error_aborts_witness:
  "(retries conflict_first Find refuse_version_3)\<^sup>*\<^sup>* (world_stale, 0) (world_reread, 2)
   \<and> deref world_reread 2 = Some execution_a
   \<and> refuse_version_3 execution_a = (execution_a, Some (ErrCustom ''finished''))
   \<and> (\<exists>w'. UpdateOptLock_on conflict_first Find world_stale 0 refuse_version_3
               = Some (w', Inl (ErrCustom ''finished''))
          \<and> executions w' = executions world_reread \<and> next_id w' = next_id world_reread
          \<and> ticks w' = ticks world_reread \<and> heap w' = heap world_reread @ [execution_a])"
proof -
  have "retries conflict_first Find refuse_version_3 (world_stale, 0) (world_reread, 2)"
    by (rule first_pass_retries) (simp add: refuse_version_3_def)
  then have r: "(retries conflict_first Find refuse_version_3)\<^sup>*\<^sup>* (world_stale, 0) (world_reread, 2)"
    by (rule r_into_rtranclp)
  have m: "refuse_version_3 execution_a = (execution_a, Some (ErrCustom ''finished''))"
    by (simp add: refuse_version_3_def execution_a_def)
  from mutation_error_aborts [OF r deref_world_reread m] r deref_world_reread m
  show ?thesis by simp
qed

section \<open>The persisted version over sequences of calls\<close>





lemma run_length: "run calls w = Some trace \<Longrightarrow> length trace = length calls"
  by (induction calls arbitrary: w trace) (auto split: option.splits)


lemma run_returns: "\<exists>trace. run calls w = Some trace"
proof (induction calls arbitrary: w)
  case Nil
  then show ?case by simp
next
  case (Cons c cs)
  have "\<exists>r. perform c w = Some r"
    by (cases c) (auto simp: perform_def UpdateOptLock_result)
  then obtain w' k where "perform c w = Some (w', k)"
    by (metis surj_pair)
  with Cons [of w'] show ?case by auto
qed





section \<open>What Update and UpdateOptLock leave alone\<close>

text \<open>
  C9. The \<open>SET\<close> list of the update statement names the columns status, error, event,
  started, finished, updated and version. Every other column of every persisted row has
  the same value after \<open>Update\<close> as before, and after \<open>UpdateOptLock\<close>, which
  returns; so what a mutation function changes in another field, such as the title, is
  not persisted.
\<close>

theorem Update_writes_only_set_columns:
  assumes "c \<notin> set [F execution_status, F execution_error, F execution_event,
                     F execution_started, F execution_finished, execution_updated,
                     execution_version]"
  shows "assigned executionUpdateStmt =
           [F execution_status, F execution_error, F execution_event, F execution_started,
            F execution_finished, execution_updated, execution_version]
         \<and> list_all2 (same_column c) (executions (fst (Update w e))) (executions w)
         \<and> (\<exists>w' res. UpdateOptLock w e mutateFn = Some (w', res)
               \<and> list_all2 (same_column c) (executions w') (executions w))"
proof -
  from assms have c: "c \<notin> set (assigned executionUpdateStmt)"
    by (simp add: assigned_executionUpdateStmt)
  have "\<exists>r. UpdateOptLock w e mutateFn = Some r"
    by (subst UpdateOptLock_result) (rule exI, rule refl)
  then obtain w' res where r: "UpdateOptLock w e mutateFn = Some (w', res)"
    by (metis surj_pair)
  from UpdateOptLock_executions [OF r]
  have "list_all2 (same_column c) (executions w') (executions w)"
    by (simp add: list_all2_same same_column_refl)
  with r have "\<exists>w' res. UpdateOptLock w e mutateFn = Some (w', res)
               \<and> list_all2 (same_column c) (executions w') (executions w)"
    by (intro exI conjI)
  with Update_frame [OF c] assigned_executionUpdateStmt show ?thesis
    by (intro conjI)
qed

theorem Update_writes_only_set_columns_witness:
  "F execution_title \<notin> set [F execution_status, F execution_error, F execution_event,
                     F execution_started, F execution_finished, execution_updated,
                     execution_version]
   \<and> fst (set_title execution_a) \<noteq> execution_a
   \<and> list_all2 (same_column (F execution_title)) (executions (fst (Update world_a 0)))
        (executions world_a)
   \<and> (\<exists>w' res. UpdateOptLock world_a 0 set_title = Some (w', res)
         \<and> list_all2 (same_column (F execution_title)) (executions w') (executions world_a))"
proof -
  have "Fields (fst (set_title execution_a)) execution_title \<noteq> Fields execution_a execution_title"
    by (simp add: set_title_def execution_a_def new_Execution_def)
  then have "fst (set_title execution_a) \<noteq> execution_a" by auto
  with Update_writes_only_set_columns [of "F execution_title" world_a 0 set_title]
  show ?thesis by simp
qed

text \<open>
  C10. \<open>Update\<close> writes the caller's record only when it returns \<open>nil\<close>, and then
  only its \<open>Version\<close> and \<open>Updated\<close> fields: when it returns an error the heap is as
  it was. \<open>UpdateOptLock\<close> returns, and every struct that existed before the call,
  the record passed in among them, is unchanged after it; a record it returns is a
  cell allocated during the call.
\<close>

theorem Update_leaves_caller_record:
  "(case snd (Update w e) of
      Some err \<Rightarrow> heap (fst (Update w e)) = heap w
    | None \<Rightarrow> (\<exists>v u. heap (fst (Update w e)) = (heap w)[e := (heap w ! e)\<lparr>Version := v, Updated := u\<rparr>]))
   \<and> (\<exists>w' res. UpdateOptLock w e mutateFn = Some (w', res)
         \<and> take (length (heap w)) (heap w') = heap w
         \<and> (case res of Inl err \<Rightarrow> True
             | Inr p \<Rightarrow> length (heap w) \<le> p \<and> p < length (heap w')))"
proof -
  have "case snd (Update w e) of
      Some err \<Rightarrow> heap (fst (Update w e)) = heap w
    | None \<Rightarrow> (\<exists>v u. heap (fst (Update w e)) = (heap w)[e := (heap w ! e)\<lparr>Version := v, Updated := u\<rparr>])"
    by (auto simp: Update_def time_Now_UnixMilli_def deref_def store_def Let_def
        split: option.splits sum.splits prod.splits if_splits)
  moreover have "\<exists>w' res. UpdateOptLock w e mutateFn = Some (w', res)
         \<and> take (length (heap w)) (heap w') = heap w
         \<and> (case res of Inl err \<Rightarrow> True
             | Inr p \<Rightarrow> length (heap w) \<le> p \<and> p < length (heap w'))"
    by (auto simp: UpdateOptLock_result private_copy_def split: option.splits prod.splits)
  ultimately show ?thesis by blast
qed

theorem Update_leaves_caller_record_witness:
  "snd (Update world_a 0) = Some (ErrSQL ''Failed to update execution'')
   \<and> heap (fst (Update world_a 0)) = heap world_a
   \<and> (\<exists>w' res. UpdateOptLock world_a 0 set_status = Some (w', res)
         \<and> take (length (heap world_a)) (heap w') = heap world_a
         \<and> heap w' \<noteq> heap world_a)"
proof -
  have u: "snd (Update world_a 0) = Some (ErrSQL ''Failed to update execution'')"
    by (simp add: Update_result world_a_def)
  obtain w' res where r: "UpdateOptLock world_a 0 set_status = Some (w', res)"
    and t: "take (length (heap world_a)) (heap w') = heap world_a"
    using Update_leaves_caller_record [of world_a 0 set_status] by blast
  from r have "length (heap w') = 2"
    by (auto simp: UpdateOptLock_result deref_def world_a_def set_status_def private_copy_def)
  then have "heap w' \<noteq> heap world_a"
    by (auto simp: world_a_def)
  with Update_leaves_caller_record [of world_a 0 set_status] u r t show ?thesis
    by auto
qed

end
